theory Spec2Isabelle
  imports Complex_Main "HOL-Library.Sublist" "HOL-Library.Log_Nat"
begin

section \<open>JavaScript numbers\<close>

text \<open>
  The order core of the Foodex billing application: the reducer \<open>orderReducer\<close> of
  \<^verbatim>\<open>src/context/OrderContext.tsx\<close> and the helper \<open>calculateTotals\<close> of
  \<^verbatim>\<open>src/lib/utils.ts\<close>.

  Prices, discounts, delivery charges and totals are JavaScript numbers: IEEE 754
  binary64 values. A finite value is the rational number it denotes; \<open>+0\<close> and \<open>-0\<close>
  are one value here (they are equal under \<open>===\<close>, and \<open>+\<close> and \<open>-\<close> give the same
  result for either, up to the sign of a zero result).
\<close>

datatype number = Finite rat | PosInfinity | NegInfinity | NaN

text \<open>
  For \<open>0 < x\<close>, \<open>floor_log2 x\<close> is the exponent \<open>e\<close> with \<open>2 ^ e \<le> x < 2 ^ (e + 1)\<close>.
\<close>

definition floor_log2 :: "rat \<Rightarrow> int" where
  "floor_log2 x = (if 1 \<le> x then bitlen \<lfloor>x\<rfloor> - 1 else - bitlen (\<lceil>1 / x\<rceil> - 1))"

definition round_half_even :: "rat \<Rightarrow> int" where
  "round_half_even x =
     (let n = \<lfloor>x\<rfloor>; f = x - of_int n
      in if f < 1 / 2 then n else if 1 / 2 < f then n + 1 else if even n then n else n + 1)"

text \<open>
  The number value of a mathematical value: the nearest binary64 value, ties to the even
  significand. The significand has 53 bits; below \<open>2 ^ - 1022\<close> the values are the
  multiples of \<open>2 ^ - 1074\<close>; a result of magnitude \<open>2 ^ 1024\<close> or more is an infinity.
  A numeric literal of the source denotes the number value of its decimal value.
\<close>

definition round_double :: "rat \<Rightarrow> number" where
  "round_double x =
     (if x = 0 then Finite 0
      else
        (let e = max (floor_log2 \<bar>x\<bar>) (- 1022);
             ulp = 2 powi (e - 52);
             r = of_int (round_half_even (x / ulp)) * ulp
         in if 2 ^ 1024 \<le> \<bar>r\<bar> then (if 0 < x then PosInfinity else NegInfinity)
            else Finite r))"

text \<open>
  The operators \<open>+\<close> and \<open>-\<close> on numbers: the exact result, rounded. A NaN operand
  gives NaN, and so does the sum of the two infinities; \<open>x - y\<close> is \<open>x + (-y)\<close>.
\<close>

fun number_add :: "number \<Rightarrow> number \<Rightarrow> number" where
  "number_add NaN y = NaN"
| "number_add x NaN = NaN"
| "number_add PosInfinity NegInfinity = NaN"
| "number_add NegInfinity PosInfinity = NaN"
| "number_add PosInfinity y = PosInfinity"
| "number_add NegInfinity y = NegInfinity"
| "number_add (Finite a) PosInfinity = PosInfinity"
| "number_add (Finite a) NegInfinity = NegInfinity"
| "number_add (Finite a) (Finite b) = round_double (a + b)"

fun number_negate :: "number \<Rightarrow> number" where
  "number_negate (Finite a) = Finite (- a)"
| "number_negate PosInfinity = NegInfinity"
| "number_negate NegInfinity = PosInfinity"
| "number_negate NaN = NaN"

definition number_subtract :: "number \<Rightarrow> number \<Rightarrow> number" where
  "number_subtract x y = number_add x (number_negate y)"

text \<open>A rational is a binary64 value when rounding leaves it as it is.\<close>

definition is_double :: "rat \<Rightarrow> bool" where
  "is_double x = (round_double x = Finite x)"

section \<open>Data model\<close>

text \<open>
  Identifiers of menu items are the integers of the catalog
  (\<^verbatim>\<open>{ id: 1, name: "Burger", price: 5.99, category: "Burgers" }\<close>).
\<close>

record MenuItem =
  item_id :: int
  name :: string
  price :: number
  category :: string

text \<open>
  The customer object \<^verbatim>\<open>{ name: "", phone: "", address: "" }\<close> and the payload of an
  update are JavaScript objects with string values: finite maps from property names to
  values, so that object spread is map override.
\<close>

type_synonym CustomerDetails = "string \<rightharpoonup> string"

record OrderState =
  items :: "MenuItem list"
  customer :: CustomerDetails
  discount :: number
  deliveryCharge :: number

text \<open>
  An action is an object tagged by the string \<open>action.type\<close>. Each case of the reducer
  reads only its own property (\<open>action.item\<close>, \<open>action.id\<close>, \<open>action.payload\<close>); the
  record carries all three.
\<close>

record Action =
  action_type :: string
  action_item :: MenuItem
  action_id :: int
  action_payload :: "string \<rightharpoonup> string"

datatype js_error = Error string | TypeError

definition initialState :: OrderState where
  "initialState =
     \<lparr>items = [],
      customer = [''name'' \<mapsto> '''', ''phone'' \<mapsto> '''', ''address'' \<mapsto> ''''],
      discount = Finite 0,
      deliveryCharge = Finite 0\<rparr>"

section \<open>The reducer\<close>

text \<open>
  \<^verbatim>\<open>
  function orderReducer(state, action) {
    switch (action.type) {
      case "ADD_ITEM":
        return { ...state, items: [...state.items, action.item] };
      case "REMOVE_ITEM":
        return { ...state, items: state.items.filter(item => item.id !== action.id) };
      case "UPDATE_CUSTOMER":
        return { ...state, customer: { ...state.customer, ...action.payload } };
      default:
        throw new Error(`Unhandled action type: ${action.type}`);
    }
  }
  \<close>
  The thrown error is the left summand of the result.
\<close>

definition orderReducer :: "OrderState \<Rightarrow> Action \<Rightarrow> js_error + OrderState" where
  "orderReducer state action =
     (if action_type action = ''ADD_ITEM'' then
        Inr (state\<lparr>items := items state @ [action_item action]\<rparr>)
      else if action_type action = ''REMOVE_ITEM'' then
        Inr (state\<lparr>items := filter (\<lambda>item. item_id item \<noteq> action_id action) (items state)\<rparr>)
      else if action_type action = ''UPDATE_CUSTOMER'' then
        Inr (state\<lparr>customer := customer state ++ action_payload action\<rparr>)
      else
        Inl (Error (''Unhandled action type: '' @ action_type action)))"

text \<open>
  \<open>useReducer(orderReducer, initialState)\<close> applies the reducer to each dispatched
  action in turn; an exception ends the run.
\<close>

fun dispatch_all :: "OrderState \<Rightarrow> Action list \<Rightarrow> js_error + OrderState" where
  "dispatch_all state [] = Inr state"
| "dispatch_all state (action # actions) =
     (case orderReducer state action of
        Inl e \<Rightarrow> Inl e
      | Inr state' \<Rightarrow> dispatch_all state' actions)"

section \<open>The totals calculator\<close>

text \<open>
  \<^verbatim>\<open>
  export function calculateTotals(items = [], discount = 0, deliveryCharge = 0) {
    const subtotal = items.reduce((sum, item) => sum + item.price, 0);
    const total = subtotal - discount + deliveryCharge;
    return { subtotal, total };
  }
  \<close>
  An argument of a call is absent (\<open>undefined\<close>), \<open>null\<close>, or a value of the expected
  kind. A default parameter value replaces \<open>undefined\<close> only. Calling \<open>reduce\<close> on
  \<open>null\<close> throws a TypeError; in \<open>subtotal - discount + deliveryCharge\<close> a \<open>null\<close>
  operand is converted to the number 0. The sum is accumulated from the left, starting
  from 0, and the total is \<open>(subtotal - discount) + deliveryCharge\<close>.
\<close>

datatype 'a js_arg = Undefined | Null | Given 'a

record Totals =
  subtotal :: number
  total :: number

fun items_param :: "MenuItem list js_arg \<Rightarrow> js_error + MenuItem list" where
  "items_param Undefined = Inr []"
| "items_param Null = Inl TypeError"
| "items_param (Given xs) = Inr xs"

fun number_param :: "number js_arg \<Rightarrow> number" where
  "number_param Undefined = Finite 0"
| "number_param Null = Finite 0"
| "number_param (Given x) = x"

definition calculateTotals ::
  "MenuItem list js_arg \<Rightarrow> number js_arg \<Rightarrow> number js_arg \<Rightarrow> js_error + Totals" where
  "calculateTotals items_arg discount_arg deliveryCharge_arg =
     (case items_param items_arg of
        Inl e \<Rightarrow> Inl e
      | Inr its \<Rightarrow>
          (let subtotal = foldl (\<lambda>sum item. number_add sum (price item)) (Finite 0) its;
               total = number_add (number_subtract subtotal (number_param discount_arg))
                         (number_param deliveryCharge_arg)
           in Inr \<lparr>subtotal = subtotal, total = total\<rparr>))"

section \<open>Counting over a run of actions\<close>

text \<open>
  The quantities that the properties of a run speak about: the number of adds, the
  items added, in order, the number of removes that match at least one line item of the
  state they are applied to (the successful removes), and the number of line items
  that the removes match.
\<close>

definition adds :: "Action list \<Rightarrow> nat" where
  "adds actions = length (filter (\<lambda>a. action_type a = ''ADD_ITEM'') actions)"

definition added :: "Action list \<Rightarrow> MenuItem list" where
  "added actions = map action_item (filter (\<lambda>a. action_type a = ''ADD_ITEM'') actions)"

fun successful_removes :: "OrderState \<Rightarrow> Action list \<Rightarrow> nat" where
  "successful_removes state [] = 0"
| "successful_removes state (a # actions) =
     (if action_type a = ''REMOVE_ITEM'' \<and> action_id a \<in> item_id ` set (items state)
      then 1 else 0)
     + (case orderReducer state a of
          Inl e \<Rightarrow> 0
        | Inr state' \<Rightarrow> successful_removes state' actions)"

fun removed_items :: "OrderState \<Rightarrow> Action list \<Rightarrow> nat" where
  "removed_items state [] = 0"
| "removed_items state (a # actions) =
     (if action_type a = ''REMOVE_ITEM''
      then length (filter (\<lambda>item. item_id item = action_id a) (items state)) else 0)
     + (case orderReducer state a of
          Inl e \<Rightarrow> 0
        | Inr state' \<Rightarrow> removed_items state' actions)"

section \<open>Sums without rounding\<close>

text \<open>
  \<open>exact_sums acc ps\<close>: starting from \<open>acc\<close>, every partial sum of \<open>ps\<close>, taken from
  the left, is a binary64 value, so that no addition of the accumulation rounds.
\<close>

fun exact_sums :: "rat \<Rightarrow> rat list \<Rightarrow> bool" where
  "exact_sums acc [] = True"
| "exact_sums acc (p # ps) = (is_double (acc + p) \<and> exact_sums (acc + p) ps)"

section \<open>The catalog and example data\<close>

text \<open>
  The catalog of \<^verbatim>\<open>src/lib/menuItems.ts\<close>:
  \<^verbatim>\<open>
  export const menuItems = [
    { id: 1, name: "Burger", price: 5.99, category: "Burgers" },
    { id: 2, name: "Pizza", price: 8.99, category: "Pizza" },
    { id: 3, name: "Fries", price: 2.99, category: "Sides" },
    { id: 4, name: "Soda", price: 1.99, category: "Drinks" },
  ];
  \<close>
  Then two of its entries by name, and the actions of the three dispatch sites,
  \<^verbatim>\<open>dispatch({ type: "ADD_ITEM", item })\<close>,
  \<^verbatim>\<open>dispatch({ type: "REMOVE_ITEM", id: item.id })\<close> and
  \<^verbatim>\<open>dispatch({ type: "UPDATE_CUSTOMER", payload: data })\<close>. The properties that a
  dispatch site leaves out are never read by the case of the reducer it reaches; here
  they hold fixed values.
\<close>

definition menuItems :: "MenuItem list" where
  "menuItems =
     [\<lparr>item_id = 1, name = ''Burger'', price = round_double (599 / 100), category = ''Burgers''\<rparr>,
      \<lparr>item_id = 2, name = ''Pizza'', price = round_double (899 / 100), category = ''Pizza''\<rparr>,
      \<lparr>item_id = 3, name = ''Fries'', price = round_double (299 / 100), category = ''Sides''\<rparr>,
      \<lparr>item_id = 4, name = ''Soda'', price = round_double (199 / 100), category = ''Drinks''\<rparr>]"

abbreviation burger :: MenuItem where
  "burger \<equiv>
     \<lparr>item_id = 1, name = ''Burger'', price = round_double (599 / 100), category = ''Burgers''\<rparr>"

abbreviation fries :: MenuItem where
  "fries \<equiv>
     \<lparr>item_id = 3, name = ''Fries'', price = round_double (299 / 100), category = ''Sides''\<rparr>"

abbreviation add_item :: "MenuItem \<Rightarrow> Action" where
  "add_item it \<equiv>
     \<lparr>action_type = ''ADD_ITEM'', action_item = it, action_id = 0, action_payload = Map.empty\<rparr>"

abbreviation remove_item :: "int \<Rightarrow> Action" where
  "remove_item k \<equiv>
     \<lparr>action_type = ''REMOVE_ITEM'', action_item = burger, action_id = k,
      action_payload = Map.empty\<rparr>"

abbreviation update_customer :: "(string \<rightharpoonup> string) \<Rightarrow> Action" where
  "update_customer p \<equiv>
     \<lparr>action_type = ''UPDATE_CUSTOMER'', action_item = burger, action_id = 0,
      action_payload = p\<rparr>"

section \<open>Helper lemmas\<close>

lemma filter_all_ids:
  "k \<notin> item_id ` set its \<Longrightarrow> filter (\<lambda>item. item_id item \<noteq> k) its = its"
  by (induction its) auto

lemma round_half_even_of_int: "round_half_even (of_int n) = n"
  by (simp add: round_half_even_def)

lemma floor_log2_bounds:
  assumes "0 < x"
  shows "2 powi (floor_log2 x) \<le> x \<and> x < 2 powi (floor_log2 x + 1)"
proof (cases "1 \<le> x")
  case True
  define n where "n = \<lfloor>x\<rfloor>"
  from True have n1: "1 \<le> n" unfolding n_def by simp
  then have n0: "0 < n" by simp
  from bitlen_bounds [OF n0] have lo: "2 ^ nat (bitlen n - 1) \<le> n" and hi: "n < 2 ^ nat (bitlen n)"
    by simp_all
  from n0 have b1: "1 \<le> bitlen n"
    by (simp add: bitlen_alt_def)
  have fl: "floor_log2 x = bitlen n - 1"
    using True by (simp add: floor_log2_def n_def)
  have "(of_int (2 ^ nat (bitlen n - 1)) :: rat) \<le> of_int n"
    using lo by (simp only: of_int_le_iff)
  also have "(of_int n :: rat) \<le> x"
    unfolding n_def by simp
  finally have l: "(2::rat) powi (bitlen n - 1) \<le> x"
    using b1 by (simp add: power_int_def)
  from hi have "n + 1 \<le> 2 ^ nat (bitlen n)" by simp
  then have "(of_int (n + 1) :: rat) \<le> of_int (2 ^ nat (bitlen n))"
    by (simp only: of_int_le_iff)
  then have "(of_int (n + 1) :: rat) \<le> 2 ^ nat (bitlen n)" by simp
  moreover have "x < of_int (n + 1)"
    unfolding n_def by linarith
  ultimately have "x < (2::rat) ^ nat (bitlen n)" by (rule order_less_le_trans [rotated])
  then have u: "x < (2::rat) powi (bitlen n - 1 + 1)"
    using b1 by (simp add: power_int_def)
  from l u fl show ?thesis by simp
next
  case False
  with assms have x1: "x < 1" by simp
  define c where "c = \<lceil>1 / x\<rceil>"
  define m where "m = c - 1"
  from assms x1 have y1: "1 < 1 / x" by simp
  then have c2: "2 \<le> c" unfolding c_def by linarith
  then have m0: "0 < m" unfolding m_def by simp
  from bitlen_bounds [OF m0] have lo: "2 ^ nat (bitlen m - 1) \<le> m" and hi: "m < 2 ^ nat (bitlen m)"
    by simp_all
  from m0 have b1: "1 \<le> bitlen m"
    by (simp add: bitlen_alt_def)
  have fl: "floor_log2 x = - bitlen m"
    using False by (simp add: floor_log2_def c_def m_def)
  from hi have "c \<le> 2 ^ nat (bitlen m)" unfolding m_def by simp
  then have "(of_int c :: rat) \<le> of_int (2 ^ nat (bitlen m))"
    by (simp only: of_int_le_iff)
  then have "(of_int c :: rat) \<le> 2 ^ nat (bitlen m)" by simp
  moreover have "1 / x \<le> of_int c" unfolding c_def by simp
  ultimately have "1 / x \<le> (2::rat) ^ nat (bitlen m)" by (rule order_trans [rotated])
  with assms have "1 \<le> (2::rat) ^ nat (bitlen m) * x"
    by (simp add: field_simps)
  then have "1 / (2::rat) ^ nat (bitlen m) \<le> x"
    by (simp add: field_simps)
  then have l: "(2::rat) powi (- bitlen m) \<le> x"
    using b1 by (simp add: power_int_def field_simps)
  have "(of_int m :: rat) < 1 / x" unfolding m_def c_def by linarith
  moreover have "(of_int (2 ^ nat (bitlen m - 1)) :: rat) \<le> of_int m"
    using lo by (simp only: of_int_le_iff)
  then have "(2::rat) ^ nat (bitlen m - 1) \<le> of_int m" by simp
  ultimately have "(2::rat) ^ nat (bitlen m - 1) < 1 / x" by (rule order_le_less_trans [rotated])
  with assms have "(2::rat) ^ nat (bitlen m - 1) * x < 1"
    by (simp add: field_simps)
  then have "x < 1 / (2::rat) ^ nat (bitlen m - 1)"
    by (simp add: field_simps)
  moreover have "(2::rat) powi (- bitlen m + 1) = 1 / 2 ^ nat (bitlen m - 1)"
  proof -
    have "- bitlen m + 1 = - (bitlen m - 1)" by simp
    then have "(2::rat) powi (- bitlen m + 1) = 2 powi (- (bitlen m - 1))" by simp
    also have "\<dots> = inverse (2 powi (bitlen m - 1))"
      by (rule power_int_minus)
    also have "\<dots> = 1 / 2 ^ nat (bitlen m - 1)"
      using b1 by (simp add: power_int_def field_simps)
    finally show ?thesis .
  qed
  ultimately have u: "x < (2::rat) powi (- bitlen m + 1)" by simp
  from l u fl show ?thesis by simp
qed

lemma pow2_exp_less:
  assumes "(2::rat) powi a \<le> x" "x < 2 powi b"
  shows "a < b"
proof (rule ccontr)
  assume "\<not> a < b"
  then have "b \<le> a" by simp
  then have "(2::rat) powi b \<le> 2 powi a"
    by (rule power_int_increasing) simp
  with assms show False by simp
qed

lemma round_double_dyadic:
  assumes m: "\<bar>m\<bar> < 2 ^ 53" and k1: "- 1074 \<le> k" and k2: "k \<le> 971"
  shows "round_double (of_int m * 2 powi k) = Finite (of_int m * 2 powi k)"
proof (cases "m = 0")
  case True
  then show ?thesis by (simp add: round_double_def)
next
  case False
  define x :: rat where "x = of_int m * 2 powi k"
  have p0: "(0::rat) < 2 powi k" by simp
  from False have x0: "x \<noteq> 0" unfolding x_def by simp
  then have ax: "0 < \<bar>x\<bar>" by simp
  have absx: "\<bar>x\<bar> = of_int \<bar>m\<bar> * 2 powi k"
    unfolding x_def by (simp add: abs_mult)
  from m have "(of_int \<bar>m\<bar> :: rat) < of_int (2 ^ 53)"
    by (simp only: of_int_less_iff)
  then have "(of_int \<bar>m\<bar> :: rat) < 2 ^ 53" by simp
  then have "of_int \<bar>m\<bar> * (2::rat) powi k < 2 ^ 53 * 2 powi k"
    using p0 by (simp only: mult_strict_right_mono)
  also have "(2::rat) ^ 53 * 2 powi k = 2 powi (k + 53)"
    by (simp add: power_int_add)
  finally have up: "\<bar>x\<bar> < 2 powi (k + 53)"
    using absx by simp
  define e where "e = max (floor_log2 \<bar>x\<bar>) (- 1022)"
  from floor_log2_bounds [OF ax] have "2 powi (floor_log2 \<bar>x\<bar>) \<le> \<bar>x\<bar>" by simp
  from pow2_exp_less [OF this up] have "floor_log2 \<bar>x\<bar> \<le> k + 52" by simp
  with k1 have e52: "e \<le> k + 52" unfolding e_def by simp
  define j where "j = nat (k + 52 - e)"
  from e52 have kj: "k = int j + (e - 52)" unfolding j_def by simp
  have split: "(2::rat) powi k = 2 ^ j * 2 powi (e - 52)"
    by (subst kj, subst power_int_add) simp_all
  have q: "x / 2 powi (e - 52) = of_int (m * 2 ^ j)"
    unfolding x_def split by simp
  have r: "of_int (round_half_even (x / 2 powi (e - 52))) * 2 powi (e - 52) = x"
    unfolding q round_half_even_of_int unfolding x_def split by simp
  from k2 have "(2::rat) powi (k + 53) \<le> 2 powi 1024"
    by (intro power_int_increasing) simp_all
  with up have "\<bar>x\<bar> < 2 ^ 1024" by simp
  then have nov: "\<not> 2 ^ 1024 \<le> \<bar>x\<bar>" by simp
  have "round_double x = Finite x"
    using x0 nov r unfolding round_double_def Let_def e_def [symmetric] by simp
  then show ?thesis unfolding x_def .
qed

lemma floor_log2_unique:
  assumes "0 < x" "2 powi e \<le> x" "x < 2 powi (e + 1)"
  shows "floor_log2 x = e"
proof -
  from floor_log2_bounds [OF assms(1)] have
    l: "2 powi (floor_log2 x) \<le> x" and u: "x < 2 powi (floor_log2 x + 1)"
    by simp_all
  from pow2_exp_less [OF l assms(3)] have "floor_log2 x < e + 1" .
  moreover from pow2_exp_less [OF assms(2) u] have "e < floor_log2 x + 1" .
  ultimately show ?thesis by simp
qed

lemma round_half_even_nearest:
  assumes "\<bar>y - of_int n\<bar> < 1 / 2"
  shows "round_half_even y = n"
proof (cases "of_int n \<le> y")
  case True
  with assms have "y < of_int n + 1" by linarith
  with True have "\<lfloor>y\<rfloor> = n" by linarith
  with assms True show ?thesis
    by (simp add: round_half_even_def)
next
  case False
  with assms have "of_int n - 1 \<le> y" by linarith
  with False have fl: "\<lfloor>y\<rfloor> = n - 1" by linarith
  from assms False have "1 / 2 < y - of_int (n - 1)" by simp
  with fl show ?thesis
    by (simp add: round_half_even_def)
qed

lemma round_half_even_tie:
  assumes "y = of_int n + 1 / 2"
  shows "round_half_even y = (if even n then n else n + 1)"
proof -
  from assms have "\<lfloor>y\<rfloor> = n" by linarith
  with assms show ?thesis
    by (simp add: round_half_even_def)
qed

lemma round_double_certificate:
  assumes e: "2 powi e \<le> \<bar>x\<bar>" "\<bar>x\<bar> < 2 powi (e + 1)"
    and n: "round_half_even (x / 2 powi (max e (- 1022) - 52)) = n"
    and r: "\<bar>of_int n * 2 powi (max e (- 1022) - 52) :: rat\<bar> < 2 ^ 1024"
  shows "round_double x = Finite (of_int n * 2 powi (max e (- 1022) - 52))"
proof -
  have "(0::rat) < 2 powi e" by simp
  with e(1) have x0: "0 < \<bar>x\<bar>" by linarith
  then have "x \<noteq> 0" by simp
  moreover from floor_log2_unique [OF x0 e] have "floor_log2 \<bar>x\<bar> = e" .
  ultimately show ?thesis
    using n r by (simp add: round_double_def Let_def)
qed

lemma is_double_dyadic:
  "\<bar>m\<bar> < 2 ^ 53 \<Longrightarrow> - 1074 \<le> k \<Longrightarrow> k \<le> 971 \<Longrightarrow> is_double (of_int m * 2 powi k)"
  by (simp add: is_double_def round_double_dyadic)

lemma round_double_zero: "round_double 0 = Finite 0"
  by (simp add: round_double_def)

lemma foldl_exact_sums:
  "exact_sums acc ps \<Longrightarrow>
     foldl number_add (Finite acc) (map Finite ps) = Finite (acc + sum_list ps)"
  by (induction ps arbitrary: acc) (simp_all add: is_double_def add.assoc)

lemma calculateTotals_given:
  "calculateTotals (Given its) d c =
     Inr \<lparr>subtotal = foldl number_add (Finite 0) (map price its),
          total = number_add
            (number_subtract (foldl number_add (Finite 0) (map price its)) (number_param d))
            (number_param c)\<rparr>"
  by (simp add: calculateTotals_def Let_def foldl_map)

text \<open>Numbers that are binary64 values, used in the examples.\<close>

lemma is_double_examples:
  "is_double 0" "is_double 6" "is_double 8" "is_double 10"
  "is_double (5 / 2)" "is_double (27 / 4)" "is_double (15 / 2)" "is_double (19 / 2)"
  using is_double_dyadic [of 0 0] is_double_dyadic [of 6 0] is_double_dyadic [of 8 0]
    is_double_dyadic [of 10 0] is_double_dyadic [of 5 "- 1"] is_double_dyadic [of 27 "- 2"]
    is_double_dyadic [of 15 "- 1"] is_double_dyadic [of 19 "- 1"]
  by simp_all

text \<open>
  The number values of the prices of the catalog, and the sums of the accumulation over
  the catalog in its order. Each rounding is given by its exponent and its significand.
\<close>

lemma price_599: "round_double (599 / 100) = Finite (3372070220993659 / 562949953421312)"
  using round_double_certificate [of 2 "599 / 100" 6744140441987318]
  by (simp add: round_half_even_nearest [of _ 6744140441987318])

lemma price_899: "round_double (899 / 100) = Finite (5060920081257595 / 562949953421312)"
  using round_double_certificate [of 3 "899 / 100" 5060920081257595]
  by (simp add: round_half_even_nearest [of _ 5060920081257595])

lemma price_299: "round_double (299 / 100) = Finite (1683220360729723 / 562949953421312)"
  using round_double_certificate [of 1 "299 / 100" 6732881442918892]
  by (simp add: round_half_even_nearest [of _ 6732881442918892])

lemma price_199: "round_double (199 / 100) = Finite (8962163258467287 / 4503599627370496)"
  using round_double_certificate [of 0 "199 / 100" 8962163258467287]
  by (simp add: round_half_even_nearest [of _ 8962163258467287])

lemma catalog_sum_1:
  "number_add (Finite 0) (Finite (3372070220993659 / 562949953421312))
     = Finite (3372070220993659 / 562949953421312)"
  using round_double_dyadic [of 3372070220993659 "- 49"]
  by simp

lemma catalog_sum_2:
  "number_add (Finite (3372070220993659 / 562949953421312))
     (Finite (5060920081257595 / 562949953421312))
     = Finite (4216495151125627 / 281474976710656)"
  using round_double_dyadic [of 4216495151125627 "- 48"]
  by simp

lemma catalog_sum_3:
  "number_add (Finite (4216495151125627 / 281474976710656))
     (Finite (1683220360729723 / 562949953421312))
     = Finite (632263166436311 / 35184372088832)"
proof -
  have "round_double (4216495151125627 / 281474976710656 + 1683220360729723 / 562949953421312)
      = Finite (632263166436311 / 35184372088832)"
    using round_double_certificate
      [of 4 "4216495151125627 / 281474976710656 + 1683220360729723 / 562949953421312"
          5058105331490488]
    by (simp add: round_half_even_tie [of _ 5058105331490488])
  then show ?thesis by simp
qed

lemma catalog_sum_4:
  "number_add (Finite (632263166436311 / 35184372088832))
     (Finite (8962163258467287 / 4503599627370496))
     = Finite (5618240535144693 / 281474976710656)"
proof -
  have "round_double (632263166436311 / 35184372088832 + 8962163258467287 / 4503599627370496)
      = Finite (5618240535144693 / 281474976710656)"
    using round_double_certificate
      [of 4 "632263166436311 / 35184372088832 + 8962163258467287 / 4503599627370496"
          5618240535144693]
    by (simp add: round_half_even_nearest [of _ 5618240535144693])
  then show ?thesis by simp
qed

lemma catalog_total:
  "number_add (number_subtract (Finite (5618240535144693 / 281474976710656)) (Finite 0))
     (Finite 0) = Finite (5618240535144693 / 281474976710656)"
  using round_double_dyadic [of 5618240535144693 "- 48"]
  by (simp add: number_subtract_def)

lemma burger_twice:
  "number_add (number_add (Finite 0) (round_double (599 / 100))) (round_double (599 / 100))
     = Finite (3372070220993659 / 281474976710656)"
  using round_double_dyadic [of 3372070220993659 "- 49"]
    round_double_dyadic [of 3372070220993659 "- 48"]
  by (simp add: price_599)

lemma count_distinct_ids:
  "distinct (map item_id its) \<Longrightarrow>
     length (filter (\<lambda>item. item_id item = k) its) = (if k \<in> item_id ` set its then 1 else 0)"
  by (induction its) auto

lemma subseq_filter_append:
  "subseq ys (filter P xs @ zs) \<Longrightarrow> subseq ys (xs @ zs)"
proof -
  assume a: "subseq ys (filter P xs @ zs)"
  have "subseq (filter P xs @ zs) (xs @ zs)"
    by (simp add: list_emb_append_mono)
  with a show ?thesis
    by (rule subseq_order.trans)
qed

lemma distinct_ids_filter_append:
  "distinct (map item_id (xs @ zs)) \<Longrightarrow> distinct (map item_id (filter P xs @ zs))"
  by (auto simp: distinct_map_filter)

lemma run_add_remove:
  "\<forall>a\<in>set actions. action_type a = ''ADD_ITEM'' \<or> action_type a = ''REMOVE_ITEM'' \<Longrightarrow>
     \<exists>s'. dispatch_all s actions = Inr s'
       \<and> length (items s') + removed_items s actions = length (items s) + adds actions
       \<and> subseq (items s') (items s @ added actions)"
proof (induction actions arbitrary: s)
  case Nil
  then show ?case by (simp add: adds_def added_def)
next
  case (Cons a actions)
  then have rest: "\<forall>a\<in>set actions. action_type a = ''ADD_ITEM'' \<or> action_type a = ''REMOVE_ITEM''"
    by simp
  from Cons.prems consider
    (add) "action_type a = ''ADD_ITEM''" | (remove) "action_type a = ''REMOVE_ITEM''"
    by auto
  then show ?case
  proof cases
    case add
    let ?s1 = "s\<lparr>items := items s @ [action_item a]\<rparr>"
    from add have step: "orderReducer s a = Inr ?s1"
      by (simp add: orderReducer_def)
    from Cons.IH [OF rest, of ?s1] obtain s' where
      r: "dispatch_all ?s1 actions = Inr s'" and
      l: "length (items s') + removed_items ?s1 actions = length (items ?s1) + adds actions" and
      o: "subseq (items s') (items ?s1 @ added actions)"
      by blast
    from add step r l o show ?thesis
      by (simp add: adds_def added_def)
  next
    case remove
    let ?s1 = "s\<lparr>items := filter (\<lambda>item. item_id item \<noteq> action_id a) (items s)\<rparr>"
    from remove have step: "orderReducer s a = Inr ?s1"
      by (simp add: orderReducer_def)
    from Cons.IH [OF rest, of ?s1] obtain s' where
      r: "dispatch_all ?s1 actions = Inr s'" and
      l: "length (items s') + removed_items ?s1 actions = length (items ?s1) + adds actions" and
      o: "subseq (items s') (items ?s1 @ added actions)"
      by blast
    have split: "length (filter (\<lambda>item. item_id item \<noteq> action_id a) (items s))
        + length (filter (\<lambda>item. item_id item = action_id a) (items s)) = length (items s)"
      using sum_length_filter_compl [of "\<lambda>item. item_id item = action_id a" "items s"]
      by simp
    from o have o': "subseq (items s') (items s @ added actions)"
      by (simp add: subseq_filter_append)
    from remove step r l o' split show ?thesis
      by (simp add: adds_def added_def)
  qed
qed

lemma run_distinct_removes:
  "\<forall>a\<in>set actions. action_type a = ''ADD_ITEM'' \<or> action_type a = ''REMOVE_ITEM'' \<Longrightarrow>
   distinct (map item_id (items s @ added actions)) \<Longrightarrow>
     removed_items s actions = successful_removes s actions"
proof (induction actions arbitrary: s)
  case Nil
  then show ?case by simp
next
  case (Cons a actions)
  then have rest: "\<forall>a\<in>set actions. action_type a = ''ADD_ITEM'' \<or> action_type a = ''REMOVE_ITEM''"
    by simp
  from Cons.prems consider
    (add) "action_type a = ''ADD_ITEM''" | (remove) "action_type a = ''REMOVE_ITEM''"
    by auto
  then show ?case
  proof cases
    case add
    let ?s1 = "s\<lparr>items := items s @ [action_item a]\<rparr>"
    from add have step: "orderReducer s a = Inr ?s1"
      by (simp add: orderReducer_def)
    from add Cons.prems(2) have "distinct (map item_id (items ?s1 @ added actions))"
      by (simp add: added_def)
    from Cons.IH [OF rest this] add step show ?thesis
      by simp
  next
    case remove
    let ?s1 = "s\<lparr>items := filter (\<lambda>item. item_id item \<noteq> action_id a) (items s)\<rparr>"
    from remove have step: "orderReducer s a = Inr ?s1"
      by (simp add: orderReducer_def)
    from remove Cons.prems(2) have d: "distinct (map item_id (items s @ added actions))"
      by (simp add: added_def)
    then have "distinct (map item_id (items ?s1 @ added actions))"
      using distinct_ids_filter_append [of "items s" "added actions"] by simp
    from Cons.IH [OF rest this] have ih: "removed_items ?s1 actions = successful_removes ?s1 actions" .
    from d have "distinct (map item_id (items s))" by simp
    then have "length (filter (\<lambda>item. item_id item = action_id a) (items s))
        = (if action_id a \<in> item_id ` set (items s) then 1 else 0)"
      by (rule count_distinct_ids)
    with remove step ih show ?thesis
      by simp
  qed
qed

section \<open>Claims\<close>

text \<open>
  C1, as stated: \<open>calculateTotals\<close> returns the subtotal equal to the sum of the unit
  prices and the total equal to subtotal - d + c. The additions are those of binary64
  numbers and round: on the catalog, in its order, with no discount and no delivery
  charge, the subtotal is 19.959999999999997, which is not the sum of the four unit
  prices (the binary64 values of 5.99, 8.99, 2.99 and 1.99).
\<close>

theorem calculateTotals_catalog_rounds:
  "map price menuItems =
     [Finite (3372070220993659 / 562949953421312), Finite (5060920081257595 / 562949953421312),
      Finite (1683220360729723 / 562949953421312), Finite (8962163258467287 / 4503599627370496)]
   \<and> calculateTotals (Given menuItems) (Given (Finite 0)) (Given (Finite 0)) =
       Inr \<lparr>subtotal = Finite (5618240535144693 / 281474976710656),
            total = Finite (5618240535144693 / 281474976710656)\<rparr>
   \<and> (5618240535144693 / 281474976710656 :: rat) \<noteq>
       3372070220993659 / 562949953421312 + 5060920081257595 / 562949953421312
       + 1683220360729723 / 562949953421312 + 8962163258467287 / 4503599627370496"
  by (simp add: menuItems_def calculateTotals_given price_599 price_899 price_299 price_199
      catalog_sum_1 catalog_sum_2 catalog_sum_3 catalog_sum_4 catalog_total
      del: number_add.simps)

text \<open>
  C1, amended. For every sequence of line items, every discount \<open>d\<close> and every delivery
  charge \<open>c\<close>, \<open>calculateTotals(items, d, c)\<close> returns the subtotal obtained by adding
  the unit prices from the left, starting from 0, in binary64 arithmetic (each addition
  rounded to the nearest number), and the total \<open>(subtotal - d) + c\<close> in the same
  arithmetic. When the prices, \<open>d\<close> and \<open>c\<close> are finite and no partial sum and neither step
  of the total needs rounding, the subtotal is the sum of the unit prices and the total
  is subtotal - d + c. In particular \<open>calculateTotals([], 0, 0)\<close> is
  \<open>{subtotal: 0, total: 0}\<close>, and a single item of price 10.00 with discount 2.00 and
  delivery charge 1.50 gives \<open>{subtotal: 10.00, total: 9.50}\<close>.
\<close>

theorem calculateTotals_rounded_sum:
  "calculateTotals (Given its) (Given d) (Given c) =
     Inr \<lparr>subtotal = foldl number_add (Finite 0) (map price its),
          total = number_add
            (number_subtract (foldl number_add (Finite 0) (map price its)) d) c\<rparr>
   \<and> (map price its = map Finite ps \<and> exact_sums 0 ps
        \<and> is_double (sum_list ps - x) \<and> is_double (sum_list ps - x + y) \<longrightarrow>
      calculateTotals (Given its) (Given (Finite x)) (Given (Finite y)) =
        Inr \<lparr>subtotal = Finite (sum_list ps), total = Finite (sum_list ps - x + y)\<rparr>)
   \<and> calculateTotals (Given []) (Given (Finite 0)) (Given (Finite 0)) =
       Inr \<lparr>subtotal = Finite 0, total = Finite 0\<rparr>
   \<and> calculateTotals (Given [\<lparr>item_id = i, name = n, price = Finite 10, category = g\<rparr>])
        (Given (Finite 2)) (Given (Finite (3 / 2))) =
       Inr \<lparr>subtotal = Finite 10, total = Finite (19 / 2)\<rparr>"
proof (intro conjI impI)
  show "calculateTotals (Given its) (Given d) (Given c) =
     Inr \<lparr>subtotal = foldl number_add (Finite 0) (map price its),
          total = number_add
            (number_subtract (foldl number_add (Finite 0) (map price its)) d) c\<rparr>"
    by (simp add: calculateTotals_given)
next
  assume h: "map price its = map Finite ps \<and> exact_sums 0 ps
        \<and> is_double (sum_list ps - x) \<and> is_double (sum_list ps - x + y)"
  then have "foldl number_add (Finite 0) (map price its) = Finite (sum_list ps)"
    using foldl_exact_sums [of 0 ps] by simp
  moreover from h have "number_subtract (Finite (sum_list ps)) (Finite x) = Finite (sum_list ps - x)"
    by (simp add: number_subtract_def is_double_def)
  moreover from h have "number_add (Finite (sum_list ps - x)) (Finite y) = Finite (sum_list ps - x + y)"
    by (simp add: is_double_def)
  ultimately show "calculateTotals (Given its) (Given (Finite x)) (Given (Finite y)) =
        Inr \<lparr>subtotal = Finite (sum_list ps), total = Finite (sum_list ps - x + y)\<rparr>"
    by (simp add: calculateTotals_given)
next
  show "calculateTotals (Given []) (Given (Finite 0)) (Given (Finite 0)) =
       Inr \<lparr>subtotal = Finite 0, total = Finite 0\<rparr>"
    by (simp add: calculateTotals_given number_subtract_def round_double_zero)
next
  show "calculateTotals (Given [\<lparr>item_id = i, name = n, price = Finite 10, category = g\<rparr>])
        (Given (Finite 2)) (Given (Finite (3 / 2))) =
       Inr \<lparr>subtotal = Finite 10, total = Finite (19 / 2)\<rparr>"
    using is_double_examples
    by (simp add: calculateTotals_given number_subtract_def is_double_def)
qed

theorem calculateTotals_rounded_sum_witness:
  "exact_sums 0 [5 / 2, 17 / 4]
   \<and> is_double (sum_list [5 / 2, 17 / 4] - 3 / 4)
   \<and> is_double (sum_list [5 / 2, 17 / 4] - 3 / 4 + 3 / 2)
   \<and> calculateTotals
        (Given [\<lparr>item_id = 1, name = ''Burger'', price = Finite (5 / 2), category = ''Burgers''\<rparr>,
                \<lparr>item_id = 3, name = ''Fries'', price = Finite (17 / 4), category = ''Sides''\<rparr>])
        (Given (Finite (3 / 4))) (Given (Finite (3 / 2))) =
       Inr \<lparr>subtotal = Finite (27 / 4), total = Finite (15 / 2)\<rparr>"
proof -
  have h1: "exact_sums 0 [5 / 2, 17 / 4]"
    by (simp add: is_double_examples)
  have h2: "is_double (sum_list [5 / 2, 17 / 4] - 3 / 4)"
    by (simp add: is_double_examples)
  have h3: "is_double (sum_list [5 / 2, 17 / 4] - 3 / 4 + 3 / 2)"
    by (simp add: is_double_examples)
  from h1 h2 h3 show ?thesis
    using calculateTotals_rounded_sum
      [of "[\<lparr>item_id = 1, name = ''Burger'', price = Finite (5 / 2), category = ''Burgers''\<rparr>,
            \<lparr>item_id = 3, name = ''Fries'', price = Finite (17 / 4), category = ''Sides''\<rparr>]"
          "Finite 0" "Finite 0" "[5 / 2, 17 / 4]" "3 / 4" "3 / 2"]
    by simp
qed

text \<open>
  C2, as stated: after any sequence of add and remove operations on the initially empty
  order, the length of the item sequence is the number of adds minus the number of
  successful removes. It fails when an identifier is in the order twice: one remove
  deletes both line items. Adding the burger twice and removing identifier 1 leaves the
  empty order, while the number of adds minus the number of successful removes is 1.
\<close>

theorem add_remove_length_counterexample:
  "dispatch_all initialState [add_item burger, add_item burger, remove_item 1] = Inr initialState
   \<and> adds [add_item burger, add_item burger, remove_item 1] = 2
   \<and> successful_removes initialState [add_item burger, add_item burger, remove_item 1] = 1
   \<and> int (length (items initialState))
       \<noteq> int (adds [add_item burger, add_item burger, remove_item 1])
         - int (successful_removes initialState [add_item burger, add_item burger, remove_item 1])"
  by (simp add: orderReducer_def adds_def initialState_def)

text \<open>
  C2, amended. After any sequence of add and remove operations on the initially empty
  order, the run raises no error, the length of the item sequence is the number of adds
  minus the number of line items that the removes deleted (a remove deletes every line
  item with its identifier), and the surviving items are in the relative order in which
  they were added. When no two added items share an identifier, the length is the
  number of adds minus the number of successful removes.
\<close>

theorem add_remove_run:
  assumes "\<forall>a\<in>set actions. action_type a = ''ADD_ITEM'' \<or> action_type a = ''REMOVE_ITEM''"
  shows "\<exists>s. dispatch_all initialState actions = Inr s
     \<and> int (length (items s)) = int (adds actions) - int (removed_items initialState actions)
     \<and> subseq (items s) (added actions)
     \<and> (distinct (map item_id (added actions)) \<longrightarrow>
          int (length (items s))
            = int (adds actions) - int (successful_removes initialState actions))"
proof -
  from run_add_remove [OF assms, of initialState] obtain s where
    r: "dispatch_all initialState actions = Inr s" and
    l: "length (items s) + removed_items initialState actions
          = length (items initialState) + adds actions" and
    o: "subseq (items s) (items initialState @ added actions)"
    by blast
  have e: "items initialState = []"
    by (simp add: initialState_def)
  from l e have l': "int (length (items s))
      = int (adds actions) - int (removed_items initialState actions)"
    by simp
  have "distinct (map item_id (added actions)) \<longrightarrow>
      removed_items initialState actions = successful_removes initialState actions"
    using run_distinct_removes [OF assms, of initialState] e by simp
  with r l' o e show ?thesis
    by simp
qed

theorem add_remove_run_witness:
  "list_all (\<lambda>a. action_type a = ''ADD_ITEM'' \<or> action_type a = ''REMOVE_ITEM'')
     [add_item burger, add_item fries, add_item burger, remove_item 1]
   \<and> (\<exists>s. dispatch_all initialState
             [add_item burger, add_item fries, add_item burger, remove_item 1] = Inr s
        \<and> int (length (items s)) = 3 - 2 \<and> subseq (items s) [burger, fries, burger])
   \<and> list_all (\<lambda>a. action_type a = ''ADD_ITEM'' \<or> action_type a = ''REMOVE_ITEM'')
     [add_item burger, add_item fries, remove_item 1, remove_item 7]
   \<and> distinct (map item_id (added [add_item burger, add_item fries, remove_item 1, remove_item 7]))
   \<and> (\<exists>s. dispatch_all initialState
             [add_item burger, add_item fries, remove_item 1, remove_item 7] = Inr s
        \<and> int (length (items s)) = 2 - 1)"
  using
    add_remove_run [of "[add_item burger, add_item fries, add_item burger, remove_item 1]"]
    add_remove_run [of "[add_item burger, add_item fries, remove_item 1, remove_item 7]"]
  by (simp add: orderReducer_def adds_def added_def initialState_def)

text \<open>
  C3. For every order state and every identifier that no line item of the state has,
  the remove-item operation returns the state with its item sequence unchanged (the
  whole state is unchanged), and no error is raised.
\<close>

theorem remove_absent_noop:
  "action_type a = ''REMOVE_ITEM'' \<Longrightarrow> action_id a \<notin> item_id ` set (items s) \<Longrightarrow>
     orderReducer s a = Inr s \<and> (\<exists>s'. orderReducer s a = Inr s' \<and> items s' = items s)"
  by (simp add: orderReducer_def filter_all_ids)

theorem remove_absent_noop_witness:
  "action_type (remove_item 2) = ''REMOVE_ITEM''
   \<and> 2 \<notin> item_id ` set (items (initialState\<lparr>items := [burger, fries]\<rparr>))
   \<and> orderReducer (initialState\<lparr>items := [burger, fries]\<rparr>) (remove_item 2)
      = Inr (initialState\<lparr>items := [burger, fries]\<rparr>)"
  using remove_absent_noop [of "remove_item 2" "initialState\<lparr>items := [burger, fries]\<rparr>"]
  by simp

text \<open>
  C4. For every order state and every action whose type is none of \<open>ADD_ITEM\<close>,
  \<open>REMOVE_ITEM\<close>, \<open>UPDATE_CUSTOMER\<close>, the reducer throws an error that names the type; it
  returns no state, and a run of dispatches stops there with that error.
\<close>

theorem unknown_action_raises:
  "action_type a \<notin> {''ADD_ITEM'', ''REMOVE_ITEM'', ''UPDATE_CUSTOMER''} \<Longrightarrow>
     orderReducer s a = Inl (Error (''Unhandled action type: '' @ action_type a))
     \<and> dispatch_all s (a # actions) = Inl (Error (''Unhandled action type: '' @ action_type a))"
  by (simp add: orderReducer_def)

theorem unknown_action_raises_witness:
  "action_type ((add_item burger)\<lparr>action_type := ''CLEAR_ORDER''\<rparr>)
     \<notin> {''ADD_ITEM'', ''REMOVE_ITEM'', ''UPDATE_CUSTOMER''}
   \<and> orderReducer initialState ((add_item burger)\<lparr>action_type := ''CLEAR_ORDER''\<rparr>)
      = Inl (Error ''Unhandled action type: CLEAR_ORDER'')"
  using unknown_action_raises [of "(add_item burger)\<lparr>action_type := ''CLEAR_ORDER''\<rparr>" initialState]
  by simp

text \<open>
  C5. For every order state and every partial customer record, the update-customer
  operation merges the given fields into the customer details: every field of the
  partial record takes the given value, and every field not present in it keeps its
  previous value. Starting from \<open>{name: "A", phone: "1", address: ""}\<close>, the update
  with \<open>{address: "X"}\<close> yields \<open>{name: "A", phone: "1", address: "X"}\<close>.
\<close>

theorem update_customer_merges:
  "(action_type a = ''UPDATE_CUSTOMER'' \<longrightarrow>
      (\<exists>s'. orderReducer s a = Inr s'
         \<and> (\<forall>k. k \<in> dom (action_payload a) \<longrightarrow> customer s' k = action_payload a k)
         \<and> (\<forall>k. k \<notin> dom (action_payload a) \<longrightarrow> customer s' k = customer s k)))
   \<and> orderReducer (s\<lparr>customer := [''name'' \<mapsto> ''A'', ''phone'' \<mapsto> ''1'', ''address'' \<mapsto> '''']\<rparr>)
        (update_customer [''address'' \<mapsto> ''X''])
      = Inr (s\<lparr>customer := [''name'' \<mapsto> ''A'', ''phone'' \<mapsto> ''1'', ''address'' \<mapsto> ''X'']\<rparr>)"
proof (intro conjI impI)
  assume "action_type a = ''UPDATE_CUSTOMER''"
  then have "orderReducer s a = Inr (s\<lparr>customer := customer s ++ action_payload a\<rparr>)"
    by (simp add: orderReducer_def)
  moreover have "\<forall>k. k \<in> dom (action_payload a) \<longrightarrow>
      (customer s ++ action_payload a) k = action_payload a k"
    by (auto simp: map_add_dom_app_simps)
  moreover have "\<forall>k. k \<notin> dom (action_payload a) \<longrightarrow>
      (customer s ++ action_payload a) k = customer s k"
    by (auto simp: map_add_dom_app_simps)
  ultimately show "\<exists>s'. orderReducer s a = Inr s'
         \<and> (\<forall>k. k \<in> dom (action_payload a) \<longrightarrow> customer s' k = action_payload a k)
         \<and> (\<forall>k. k \<notin> dom (action_payload a) \<longrightarrow> customer s' k = customer s k)"
    by simp
next
  have "[''name'' \<mapsto> ''A'', ''phone'' \<mapsto> ''1'', ''address'' \<mapsto> ''''] ++ [''address'' \<mapsto> ''X'']
      = [''name'' \<mapsto> ''A'', ''phone'' \<mapsto> ''1'', ''address'' \<mapsto> ''X'']"
    by (simp add: fun_eq_iff)
  then show "orderReducer (s\<lparr>customer := [''name'' \<mapsto> ''A'', ''phone'' \<mapsto> ''1'', ''address'' \<mapsto> '''']\<rparr>)
        (update_customer [''address'' \<mapsto> ''X''])
      = Inr (s\<lparr>customer := [''name'' \<mapsto> ''A'', ''phone'' \<mapsto> ''1'', ''address'' \<mapsto> ''X'']\<rparr>)"
    by (simp add: orderReducer_def)
qed

theorem update_customer_merges_witness:
  "action_type (update_customer [''phone'' \<mapsto> ''555'']) = ''UPDATE_CUSTOMER''
   \<and> (\<exists>s'. orderReducer initialState (update_customer [''phone'' \<mapsto> ''555'']) = Inr s'
         \<and> customer s' ''phone'' = Some ''555''
         \<and> customer s' ''name'' = Some ''''
         \<and> customer s' ''address'' = Some '''')"
proof -
  have "\<exists>s'. orderReducer initialState (update_customer [''phone'' \<mapsto> ''555'']) = Inr s'
         \<and> (\<forall>k. k \<in> dom [''phone'' \<mapsto> ''555''] \<longrightarrow> customer s' k = [''phone'' \<mapsto> ''555''] k)
         \<and> (\<forall>k. k \<notin> dom [''phone'' \<mapsto> ''555''] \<longrightarrow> customer s' k = customer initialState k)"
    using update_customer_merges [of "update_customer [''phone'' \<mapsto> ''555'']" initialState]
    by simp
  then obtain s' where
    r: "orderReducer initialState (update_customer [''phone'' \<mapsto> ''555'']) = Inr s'" and
    g: "\<forall>k. k \<in> dom [''phone'' \<mapsto> ''555''] \<longrightarrow> customer s' k = [''phone'' \<mapsto> ''555''] k" and
    f: "\<forall>k. k \<notin> dom [''phone'' \<mapsto> ''555''] \<longrightarrow> customer s' k = customer initialState k"
    by blast
  from g have "customer s' ''phone'' = Some ''555''" by simp
  moreover from f have "customer s' ''name'' = Some ''''" by (simp add: initialState_def)
  moreover from f have "customer s' ''address'' = Some ''''" by (simp add: initialState_def)
  ultimately show ?thesis using r by simp
qed

text \<open>
  C6. For every order state and every menu item, the add-item operation succeeds and
  appends that item as one new line item at the end of the item sequence. Adding the
  same item twice gives two line items at the end of the sequence, each with the unit
  price: the subtotal of the new sequence is the subtotal of the old one with the unit
  price added to it twice.
\<close>

theorem add_item_appends:
  "action_type a = ''ADD_ITEM'' \<Longrightarrow>
     orderReducer s a = Inr (s\<lparr>items := items s @ [action_item a]\<rparr>)
     \<and> dispatch_all s [a, a] = Inr (s\<lparr>items := items s @ [action_item a, action_item a]\<rparr>)
     \<and> (\<exists>t t'. calculateTotals (Given (items s)) d c = Inr t
          \<and> calculateTotals (Given (items s @ [action_item a, action_item a])) d c = Inr t'
          \<and> subtotal t' =
              number_add (number_add (subtotal t) (price (action_item a)))
                (price (action_item a)))"
  by (simp add: orderReducer_def calculateTotals_given)

theorem add_item_appends_witness:
  "action_type (add_item burger) = ''ADD_ITEM''
   \<and> dispatch_all initialState [add_item burger, add_item burger]
      = Inr (initialState\<lparr>items := [burger, burger]\<rparr>)
   \<and> (\<exists>t'. calculateTotals (Given [burger, burger]) (Given (Finite 0)) (Given (Finite 0)) = Inr t'
        \<and> subtotal t' = Finite (3372070220993659 / 281474976710656))"
proof -
  have i: "items initialState = []"
    by (simp add: initialState_def)
  from burger_twice i show ?thesis
    using add_item_appends [of "add_item burger" initialState "Given (Finite 0)" "Given (Finite 0)"]
    by (auto simp: calculateTotals_given simp del: number_add.simps)
qed

text \<open>
  C8, as stated: \<open>calculateTotals\<close> never fails, whatever its arguments, missing or
  malformed. It fails on the item list \<open>null\<close>: the default value replaces an absent
  argument only, and \<open>null.reduce\<close> throws a TypeError.
\<close>

theorem calculateTotals_null_items_raises:
  "calculateTotals Null (Given (Finite 0)) (Given (Finite 0)) = Inl TypeError"
  by (simp add: calculateTotals_def)

text \<open>
  C8, amended. On every item list that is absent or a sequence of line items, and on
  every discount and delivery charge that is absent, \<open>null\<close> or a number,
  \<open>calculateTotals\<close> returns a result and raises no error. An absent item list counts
  as the empty sequence, an absent discount or delivery charge as zero.
\<close>

theorem calculateTotals_defaults:
  "(items_arg \<noteq> Null \<longrightarrow> (\<exists>t. calculateTotals items_arg discount_arg deliveryCharge_arg = Inr t))
   \<and> calculateTotals Undefined discount_arg deliveryCharge_arg
      = calculateTotals (Given []) discount_arg deliveryCharge_arg
   \<and> calculateTotals items_arg Undefined deliveryCharge_arg
      = calculateTotals items_arg (Given (Finite 0)) deliveryCharge_arg
   \<and> calculateTotals items_arg discount_arg Undefined
      = calculateTotals items_arg discount_arg (Given (Finite 0))
   \<and> calculateTotals Undefined Undefined Undefined =
       Inr \<lparr>subtotal = Finite 0, total = Finite 0\<rparr>"
  by (cases items_arg)
    (simp_all add: calculateTotals_def Let_def number_subtract_def round_double_zero)

theorem calculateTotals_defaults_witness:
  "(Undefined :: MenuItem list js_arg) \<noteq> Null
   \<and> (\<exists>t. calculateTotals Undefined Null (Given (Finite 2)) = Inr t)
   \<and> calculateTotals Undefined Null (Given (Finite 2))
      = calculateTotals (Given []) Null (Given (Finite 2))"
  using calculateTotals_defaults [of Undefined Null "Given (Finite 2)"]
  by (simp add: calculateTotals_def Let_def)

text \<open>
  C9. For every order state and every identifier, the remove-item operation removes
  every line item that has this identifier, not only the first: no line item of the
  result has it, and the line items with another identifier are all retained, in their
  order.
\<close>

theorem remove_item_removes_all:
  "action_type a = ''REMOVE_ITEM'' \<Longrightarrow>
     (\<exists>s'. orderReducer s a = Inr s'
        \<and> action_id a \<notin> item_id ` set (items s')
        \<and> filter (\<lambda>item. item_id item \<noteq> action_id a) (items s) = items s'
        \<and> subseq (items s') (items s))"
  by (auto simp: orderReducer_def)

theorem remove_item_removes_all_witness:
  "action_type (remove_item 1) = ''REMOVE_ITEM''
   \<and> orderReducer (initialState\<lparr>items := [burger, fries, burger]\<rparr>) (remove_item 1)
      = Inr (initialState\<lparr>items := [fries]\<rparr>)"
  using remove_item_removes_all [of "remove_item 1" "initialState\<lparr>items := [burger, fries, burger]\<rparr>"]
  by (simp add: initialState_def orderReducer_def)

text \<open>
  C10. The add-item and remove-item operations leave the customer record, the discount
  and the delivery charge of the state unchanged; the update-customer operation leaves
  the item sequence, the discount and the delivery charge unchanged.
\<close>

theorem reducer_frame:
  "(action_type a = ''ADD_ITEM'' \<or> action_type a = ''REMOVE_ITEM'' \<longrightarrow>
      (\<exists>s'. orderReducer s a = Inr s' \<and> customer s' = customer s
         \<and> discount s' = discount s \<and> deliveryCharge s' = deliveryCharge s))
   \<and> (action_type a = ''UPDATE_CUSTOMER'' \<longrightarrow>
      (\<exists>s'. orderReducer s a = Inr s' \<and> items s' = items s
         \<and> discount s' = discount s \<and> deliveryCharge s' = deliveryCharge s))"
  by (auto simp: orderReducer_def)

theorem reducer_frame_witness:
  "action_type (add_item fries) = ''ADD_ITEM''
   \<and> (\<exists>s'. orderReducer (initialState\<lparr>discount := Finite 1, deliveryCharge := Finite 2\<rparr>) (add_item fries) = Inr s'
         \<and> customer s' = customer initialState \<and> discount s' = Finite 1 \<and> deliveryCharge s' = Finite 2)
   \<and> action_type (remove_item 3) = ''REMOVE_ITEM''
   \<and> (\<exists>s'. orderReducer (initialState\<lparr>items := [fries], discount := Finite 1, deliveryCharge := Finite 2\<rparr>)
              (remove_item 3) = Inr s'
         \<and> customer s' = customer initialState \<and> discount s' = Finite 1 \<and> deliveryCharge s' = Finite 2)
   \<and> action_type (update_customer [''name'' \<mapsto> ''A'']) = ''UPDATE_CUSTOMER''
   \<and> (\<exists>s'. orderReducer (initialState\<lparr>items := [fries], discount := Finite 1, deliveryCharge := Finite 2\<rparr>)
              (update_customer [''name'' \<mapsto> ''A'']) = Inr s'
         \<and> items s' = [fries] \<and> discount s' = Finite 1 \<and> deliveryCharge s' = Finite 2)"
  using
    reducer_frame [of "add_item fries" "initialState\<lparr>discount := Finite 1, deliveryCharge := Finite 2\<rparr>"]
    reducer_frame [of "remove_item 3"
      "initialState\<lparr>items := [fries], discount := Finite 1, deliveryCharge := Finite 2\<rparr>"]
    reducer_frame [of "update_customer [''name'' \<mapsto> ''A'']"
      "initialState\<lparr>items := [fries], discount := Finite 1, deliveryCharge := Finite 2\<rparr>"]
  by simp

end
